theory Spec2Isabelle
  imports Main "HOL-Library.Sublist"
begin

section \<open>Text helpers\<close>

text \<open>
  Text is modelled as \<open>string\<close>: one \<open>char\<close> per UTF-16 code unit below 256.
  \<open>is_space\<close> is ECMAScript's WhiteSpace and LineTerminator set within that range
  (TAB, LF, VT, FF, CR, SP, NBSP), which is what \<^verbatim>\<open>String.prototype.trim\<close> strips.
\<close>

abbreviation NL :: char where
  "NL \<equiv> CHR 0x0A"

definition is_space :: "char \<Rightarrow> bool" where
  "is_space c =
     (c = CHR 0x09 \<or> c = CHR 0x0A \<or> c = CHR 0x0B \<or> c = CHR 0x0C \<or> c = CHR 0x0D
      \<or> c = CHR 0x20 \<or> c = CHR 0xA0)"

definition trim :: "string \<Rightarrow> string" where
  "trim s = rev (dropWhile is_space (rev (dropWhile is_space s)))"

text \<open>Decimal rendering of a non-negative number inside a template literal.\<close>

fun show_nat :: "nat \<Rightarrow> string" where
  "show_nat n =
     (if n < 10 then [''0123456789'' ! n]
      else show_nat (n div 10) @ [''0123456789'' ! (n mod 10)])"

declare show_nat.simps [simp del]

text \<open>\<^verbatim>\<open>s.split("\n")\<close>: the pieces between line feeds; never the empty list.\<close>

fun split_nl :: "string \<Rightarrow> string list" where
  "split_nl [] = [[]]"
| "split_nl (c # cs) =
     (if c = NL then [] # split_nl cs
      else (let r = split_nl cs in (c # hd r) # tl r))"

text \<open>
  \<^verbatim>\<open>s.split("\n\n")\<close>: the pieces between successive, non-overlapping, leftmost
  occurrences of two line feeds; never the empty list.
\<close>

fun split_nn :: "string \<Rightarrow> string list" where
  "split_nn (a # b # cs) =
     (if a = NL \<and> b = NL then [] # split_nn cs
      else (let r = split_nn (b # cs) in (a # hd r) # tl r))"
| "split_nn s = [s]"

section \<open>API types (lib/api.ts)\<close>

datatype event_type = Token | Message | Done | Error | Progress

text \<open>
  \<^verbatim>\<open>content?: string | Record<string, unknown>\<close>. The controller reads a record
  content through the cast \<^verbatim>\<open>Record<string, string>\<close>, so the values are strings.
\<close>

datatype event_content = Absent | Text string | Fields "(string \<times> string) list"

record ChatEvent =
  ev_type :: event_type
  ev_content :: event_content

text \<open>
  What \<^verbatim>\<open>fetch\<close> and the body reader deliver: the request is rejected (network
  failure), or a response arrives with its \<^verbatim>\<open>ok\<close> flag, status and body. A body is a
  finite sequence of decoded text chunks after which \<^verbatim>\<open>reader.read()\<close> either reports
  \<^verbatim>\<open>done\<close> (\<open>Closed\<close>) or rejects (\<open>Errored\<close>).
\<close>

datatype read_end = Closed | Errored

datatype body = NoBody | Body "string list" read_end

datatype fetch_result = Rejected | Response bool nat body

text \<open>How an async generator ends for its consumer: it returns, or it throws.\<close>

datatype completion = Returned | Thrown

text \<open>
  \<^verbatim>\<open>JSON.parse(data) as ChatEvent\<close> is a parameter \<open>parse\<close> of the readers:
  \<open>None\<close> stands for the SyntaxError that the surrounding \<^verbatim>\<open>try\<close> catches. The
  cast is taken at its word: a payload that parses is a value of the declared type
  \<^verbatim>\<open>ChatEvent\<close>.
\<close>

type_synonym parser = "string \<Rightarrow> ChatEvent option"

section \<open>The stream readers (lib/api.ts, streamChat and streamFork)\<close>

definition is_terminal :: "ChatEvent \<Rightarrow> bool" where
  "is_terminal event = (ev_type event = Done \<or> ev_type event = Error)"

text \<open>
  The inner \<^verbatim>\<open>for (const line of lines)\<close>. The result is the events yielded and
  whether the generator returned from inside the loop.
\<close>

fun lines_loop :: "parser \<Rightarrow> string list \<Rightarrow> ChatEvent list \<times> bool" where
  "lines_loop parse [] = ([], False)"
| "lines_loop parse (line # rest) =
     (if prefix ''data: '' line then
        (case parse (drop 6 line) of
           None \<Rightarrow> lines_loop parse rest
         | Some event \<Rightarrow>
             if ev_type event = Done \<or> ev_type event = Error then ([event], True)
             else (case lines_loop parse rest of (evs, fin) \<Rightarrow> (event # evs, fin)))
      else lines_loop parse rest)"

text \<open>The outer \<^verbatim>\<open>for (const message of messages)\<close>.\<close>

fun frames_loop :: "parser \<Rightarrow> string list \<Rightarrow> ChatEvent list \<times> bool" where
  "frames_loop parse [] = ([], False)"
| "frames_loop parse (message # rest) =
     (let trimmed = trim message in
      if trimmed = [] then frames_loop parse rest
      else (case lines_loop parse (split_nl trimmed) of
              (evs, fin) \<Rightarrow>
                if fin then (evs, True)
                else (case frames_loop parse rest of (evs', fin') \<Rightarrow> (evs @ evs', fin'))))"

text \<open>The \<^verbatim>\<open>if (done)\<close> branch: what is left in the buffer is read as one record.\<close>

definition remaining_buffer :: "parser \<Rightarrow> string \<Rightarrow> ChatEvent list" where
  "remaining_buffer parse buffer =
     (if trim buffer \<noteq> [] then
        (let remaining = trim buffer in
         if prefix ''data: '' remaining then
           (case parse (drop 6 remaining) of Some event \<Rightarrow> [event] | None \<Rightarrow> [])
         else [])
      else [])"

text \<open>
  The \<^verbatim>\<open>while (true)\<close> loop over \<^verbatim>\<open>reader.read()\<close>, with the buffer carried along.
  \<^verbatim>\<open>messages.pop() || ""\<close> is the last piece of the split, which always exists.
\<close>

fun read_loop :: "parser \<Rightarrow> string \<Rightarrow> string list \<Rightarrow> read_end \<Rightarrow> ChatEvent list \<times> completion" where
  "read_loop parse buffer [] Closed = (remaining_buffer parse buffer, Returned)"
| "read_loop parse buffer [] Errored = ([], Thrown)"
| "read_loop parse buffer (chunk # chunks) e =
     (let buffer' = buffer @ chunk; messages = split_nn buffer' in
      case frames_loop parse (butlast messages) of
        (evs, fin) \<Rightarrow>
          if fin then (evs, Returned)
          else (case read_loop parse (last messages) chunks e of
                  (evs', c) \<Rightarrow> (evs @ evs', c)))"

text \<open>
  The two generators. The request itself is logged by the calling controller operation
  (\<open>ChatRequest\<close>, \<open>ForkRequest\<close> below); here \<open>r\<close> is what \<^verbatim>\<open>fetch\<close> gave back.
  Reading the error text of a response that is not \<^verbatim>\<open>ok\<close> is taken to succeed.
\<close>

definition streamChat :: "parser \<Rightarrow> fetch_result \<Rightarrow> ChatEvent list \<times> completion" where
  "streamChat parse r =
     (case r of
        Rejected \<Rightarrow> ([], Thrown)
      | Response ok status b \<Rightarrow>
          if \<not> ok then
            ([\<lparr>ev_type = Error,
               ev_content = Text (''Failed to send message: '' @ show_nat status)\<rparr>], Returned)
          else (case b of
                  NoBody \<Rightarrow> ([\<lparr>ev_type = Error, ev_content = Text ''No response body''\<rparr>], Returned)
                | Body chunks e \<Rightarrow> read_loop parse [] chunks e))"

definition streamFork :: "parser \<Rightarrow> fetch_result \<Rightarrow> ChatEvent list \<times> completion" where
  "streamFork parse r =
     (case r of
        Rejected \<Rightarrow> ([], Thrown)
      | Response ok status b \<Rightarrow>
          if \<not> ok then
            ([\<lparr>ev_type = Error,
               ev_content = Text (''Failed to fork: '' @ show_nat status)\<rparr>], Returned)
          else (case b of
                  NoBody \<Rightarrow> ([\<lparr>ev_type = Error, ev_content = Text ''No response body''\<rparr>], Returned)
                | Body chunks e \<Rightarrow> read_loop parse [] chunks e))"

section \<open>Controller types (lib/api.ts, hooks/useChat.ts)\<close>

datatype role = Human | Ai

record MessageAttachment =
  filename :: string
  att_size :: nat
  s3_key :: "string option"
  content_type :: "string option"

record Thread =
  t_id :: string
  t_user_id :: string
  t_title :: "string option"
  t_created_at :: "string option"
  t_updated_at :: "string option"

record Message =
  m_id :: nat
  m_thread_id :: string
  m_user_id :: "string option"
  m_role :: role
  m_content :: string
  m_message_id :: "string option"
  m_attachments :: "MessageAttachment list"
  m_created_at :: "string option"

record CheckpointMessage =
  cm_role :: string
  cm_content :: string

record Checkpoint =
  checkpoint_id :: string
  cp_thread_id :: string
  checkpoint_ns :: string
  parent_checkpoint_id :: "string option"
  cp_created_at :: "string option"
  step :: int
  cp_messages :: "CheckpointMessage list"

text \<open>A displayed message; \<open>None\<close> is an optional field that is not set.\<close>

record ChatMessage =
  msg_id :: string
  role :: role
  content :: string
  attachments :: "MessageAttachment list option"
  isStreaming :: "bool option"

text \<open>The requests the controller sends, in the order of \<open>requests\<close> below.\<close>

datatype request =
    FetchThreads string
  | CreateThread string
  | DeleteThread string
  | FetchMessages string
  | FetchHistory string
  | Truncate string nat
  | ChatRequest string string string "MessageAttachment list"
  | ForkRequest string string string string "MessageAttachment list"

text \<open>
  The hook's state variables, its argument \<open>userId\<close>, and a log of the requests sent so
  far (oldest first).
\<close>

record client =
  messages :: "ChatMessage list"
  isLoading :: bool
  threads :: "Thread list"
  currentThreadId :: "string option"
  progressStatus :: "string option"
  checkpoints :: "Checkpoint list"
  selectedCheckpoint :: "Checkpoint option"
  isHistoryLoading :: bool
  showTimeline :: bool
  userId :: string
  requests :: "request list"

text \<open>
  What the environment answers while one operation runs: the platform's
  \<^verbatim>\<open>JSON.parse\<close>, \<^verbatim>\<open>JSON.stringify\<close> and \<^verbatim>\<open>Date.now()\<close> (read once for the
  user message id and once for the placeholder id), and the server's replies. \<open>None\<close>
  or \<open>False\<close> is a call that throws.
\<close>

record world =
  json_parse :: parser
  json_stringify :: "event_content \<Rightarrow> string option"
  now_user :: nat
  now_ai :: nat
  create_thread :: "Thread option"
  delete_ok :: bool
  truncate_ok :: bool
  threads_reply :: "Thread list option"
  messages_reply :: "Message list option"
  history_reply :: "Checkpoint list option"
  edit_history_reply :: "Checkpoint list option"
  response :: fetch_result

section \<open>The controller (hooks/useChat.ts)\<close>

definition send_request :: "request \<Rightarrow> client \<Rightarrow> client" where
  "send_request r st = st\<lparr>requests := requests st @ [r]\<rparr>"

definition refreshThreads :: "world \<Rightarrow> client \<Rightarrow> client" where
  "refreshThreads w st =
     (let st1 = send_request (FetchThreads (userId st)) st in
      case threads_reply w of
        Some fetchedThreads \<Rightarrow> st1\<lparr>threads := fetchedThreads\<rparr>
      | None \<Rightarrow> st1)"

definition from_message :: "Message \<Rightarrow> ChatMessage" where
  "from_message msg =
     \<lparr>msg_id = ''db-'' @ show_nat (m_id msg), role = m_role msg, content = m_content msg,
      attachments = Some (m_attachments msg), isStreaming = None\<rparr>"

definition loadMessages :: "world \<Rightarrow> string \<Rightarrow> client \<Rightarrow> client" where
  "loadMessages w threadId st =
     (let st1 = send_request (FetchMessages threadId) st in
      case messages_reply w of
        Some fetchedMessages \<Rightarrow> st1\<lparr>messages := map from_message fetchedMessages\<rparr>
      | None \<Rightarrow> st1)"

definition deleteThread :: "world \<Rightarrow> string \<Rightarrow> client \<Rightarrow> client" where
  "deleteThread w threadId st =
     (let st1 = send_request (DeleteThread threadId) st in
      if delete_ok w then
        (let st2 = st1\<lparr>threads := filter (\<lambda>t. t_id t \<noteq> threadId) (threads st1)\<rparr> in
         if currentThreadId st = Some threadId
         then st2\<lparr>currentThreadId := None, messages := []\<rparr>
         else st2)
      else st1)"

definition loadHistory :: "world \<Rightarrow> client \<Rightarrow> client" where
  "loadHistory w st =
     (case currentThreadId st of
        None \<Rightarrow> st
      | Some threadId \<Rightarrow>
          (let st1 = send_request (FetchHistory threadId) (st\<lparr>isHistoryLoading := True\<rparr>);
               st2 = (case history_reply w of
                        Some history \<Rightarrow> st1\<lparr>checkpoints := history\<rparr>
                      | None \<Rightarrow> st1)
           in st2\<lparr>isHistoryLoading := False\<rparr>))"

definition checkpoint_message :: "Checkpoint \<Rightarrow> nat \<times> CheckpointMessage \<Rightarrow> ChatMessage" where
  "checkpoint_message checkpoint p =
     (case p of (idx, msg) \<Rightarrow>
        \<lparr>msg_id = ''checkpoint-'' @ checkpoint_id checkpoint @ ''-'' @ show_nat idx,
         role = (if cm_role msg = ''human'' then Human else Ai),
         content = cm_content msg, attachments = None, isStreaming = None\<rparr>)"

definition selectCheckpoint :: "world \<Rightarrow> Checkpoint option \<Rightarrow> client \<Rightarrow> client" where
  "selectCheckpoint w checkpoint st =
     (let st1 = st\<lparr>selectedCheckpoint := checkpoint\<rparr> in
      case checkpoint of
        Some cp \<Rightarrow>
          st1\<lparr>messages := map (checkpoint_message cp) (enumerate 0 (cp_messages cp))\<rparr>
      | None \<Rightarrow>
          (case currentThreadId st of
             Some threadId \<Rightarrow> loadMessages w threadId st1
           | None \<Rightarrow> st1))"

text \<open>
  components/ChatWindow.tsx with app/page.tsx: \<^verbatim>\<open>isPreviewingCheckpoint\<close> and the
  \<^verbatim>\<open>canEdit\<close> property passed to each message bubble.
\<close>

definition isPreviewingCheckpoint :: "client \<Rightarrow> bool" where
  "isPreviewingCheckpoint st = (selectedCheckpoint st \<noteq> None)"

definition canEdit :: "client \<Rightarrow> ChatMessage \<Rightarrow> bool" where
  "canEdit st message =
     (role message = Human \<and> \<not> isLoading st \<and> \<not> isPreviewingCheckpoint st)"

text \<open>\<^verbatim>\<open>prev.map((msg) => msg.id === aiMessageId ? f(msg) : msg)\<close>\<close>

definition update_message ::
  "string \<Rightarrow> (ChatMessage \<Rightarrow> ChatMessage) \<Rightarrow> ChatMessage list \<Rightarrow> ChatMessage list" where
  "update_message aiMessageId f prev = map (\<lambda>msg. if msg_id msg = aiMessageId then f msg else msg) prev"

text \<open>\<^verbatim>\<open>typeof event.content === 'string' ? event.content : fallback\<close>\<close>

definition text_or :: "string \<Rightarrow> event_content \<Rightarrow> string" where
  "text_or fallback c = (case c of Text s \<Rightarrow> s | _ \<Rightarrow> fallback)"

text \<open>\<^verbatim>\<open>progressData?.Progress || JSON.stringify(progressData)\<close>\<close>

definition progress_text :: "world \<Rightarrow> event_content \<Rightarrow> string option" where
  "progress_text w c =
     (case c of
        Fields kv \<Rightarrow>
          (case map_of kv ''Progress'' of
             Some v \<Rightarrow> if v \<noteq> [] then Some v else json_stringify w c
           | None \<Rightarrow> json_stringify w c)
      | _ \<Rightarrow> json_stringify w c)"

text \<open>The event handler inside \<^verbatim>\<open>sendMessage\<close>.\<close>

definition send_event :: "world \<Rightarrow> string \<Rightarrow> client \<Rightarrow> ChatEvent \<Rightarrow> client" where
  "send_event w aiMessageId st event =
     (case ev_type event of
        Progress \<Rightarrow> st\<lparr>progressStatus := progress_text w (ev_content event)\<rparr>
      | Token \<Rightarrow>
          st\<lparr>messages := update_message aiMessageId
                (\<lambda>msg. msg\<lparr>content := content msg @ text_or [] (ev_content event)\<rparr>) (messages st)\<rparr>
      | Message \<Rightarrow>
          st\<lparr>messages := update_message aiMessageId
                (\<lambda>msg. msg\<lparr>content := text_or [] (ev_content event), isStreaming := Some False\<rparr>)
                (messages st)\<rparr>
      | Done \<Rightarrow>
          st\<lparr>progressStatus := None,
             messages := update_message aiMessageId (\<lambda>msg. msg\<lparr>isStreaming := Some False\<rparr>)
                (messages st)\<rparr>
      | Error \<Rightarrow>
          st\<lparr>progressStatus := None,
             messages := update_message aiMessageId
                (\<lambda>msg. msg\<lparr>content := ''Error: '' @ text_or ''Something went wrong'' (ev_content event),
                           isStreaming := Some False\<rparr>)
                (messages st)\<rparr>)"

text \<open>The event handler inside \<^verbatim>\<open>forkFromCheckpoint\<close>: it has no branch for \<^verbatim>\<open>"message"\<close>.\<close>

definition fork_event :: "world \<Rightarrow> string \<Rightarrow> client \<Rightarrow> ChatEvent \<Rightarrow> client" where
  "fork_event w aiMessageId st event =
     (case ev_type event of
        Progress \<Rightarrow> st\<lparr>progressStatus := progress_text w (ev_content event)\<rparr>
      | Token \<Rightarrow>
          st\<lparr>messages := update_message aiMessageId
                (\<lambda>msg. msg\<lparr>content := content msg @ text_or [] (ev_content event)\<rparr>) (messages st)\<rparr>
      | Message \<Rightarrow> st
      | Done \<Rightarrow>
          st\<lparr>progressStatus := None,
             messages := update_message aiMessageId (\<lambda>msg. msg\<lparr>isStreaming := Some False\<rparr>)
                (messages st)\<rparr>
      | Error \<Rightarrow>
          st\<lparr>progressStatus := None,
             messages := update_message aiMessageId
                (\<lambda>msg. msg\<lparr>content := ''Error: '' @ text_or ''Something went wrong'' (ev_content event),
                           isStreaming := Some False\<rparr>)
                (messages st)\<rparr>)"

text \<open>
  The event handler of the fallback branch of \<^verbatim>\<open>editMessage\<close>: the same chain as in
  \<^verbatim>\<open>forkFromCheckpoint\<close>, again without a branch for \<^verbatim>\<open>"message"\<close>.
\<close>

definition edit_event :: "world \<Rightarrow> string \<Rightarrow> client \<Rightarrow> ChatEvent \<Rightarrow> client" where
  "edit_event w aiMessageId st event =
     (case ev_type event of
        Progress \<Rightarrow> st\<lparr>progressStatus := progress_text w (ev_content event)\<rparr>
      | Token \<Rightarrow>
          st\<lparr>messages := update_message aiMessageId
                (\<lambda>msg. msg\<lparr>content := content msg @ text_or [] (ev_content event)\<rparr>) (messages st)\<rparr>
      | Message \<Rightarrow> st
      | Done \<Rightarrow>
          st\<lparr>progressStatus := None,
             messages := update_message aiMessageId (\<lambda>msg. msg\<lparr>isStreaming := Some False\<rparr>)
                (messages st)\<rparr>
      | Error \<Rightarrow>
          st\<lparr>progressStatus := None,
             messages := update_message aiMessageId
                (\<lambda>msg. msg\<lparr>content := ''Error: '' @ text_or ''Something went wrong'' (ev_content event),
                           isStreaming := Some False\<rparr>)
                (messages st)\<rparr>)"

text \<open>The \<^verbatim>\<open>catch\<close> block shared in shape by the three streaming operations.\<close>

definition failed_response :: "string \<Rightarrow> client \<Rightarrow> client" where
  "failed_response aiMessageId st =
     st\<lparr>progressStatus := None,
        messages := update_message aiMessageId
           (\<lambda>msg. msg\<lparr>content := ''Failed to get response. Please try again.'',
                      isStreaming := Some False\<rparr>)
           (messages st)\<rparr>"

definition user_message :: "world \<Rightarrow> string \<Rightarrow> MessageAttachment list \<Rightarrow> ChatMessage" where
  "user_message w c atts =
     \<lparr>msg_id = ''user-'' @ show_nat (now_user w), role = Human, content = c,
      attachments = Some atts, isStreaming = None\<rparr>"

definition ai_id :: "world \<Rightarrow> string" where
  "ai_id w = ''ai-'' @ show_nat (now_ai w)"

definition placeholder :: "world \<Rightarrow> ChatMessage" where
  "placeholder w =
     \<lparr>msg_id = ai_id w, role = Ai, content = [], attachments = None, isStreaming = Some True\<rparr>"

text \<open>\<^verbatim>\<open>attachments || []\<close> for the optional parameter.\<close>

definition or_empty :: "'a list option \<Rightarrow> 'a list" where
  "or_empty a = (case a of Some xs \<Rightarrow> xs | None \<Rightarrow> [])"

text \<open>
  \<^verbatim>\<open>forkFromCheckpoint\<close>. The three streaming operations process the events the
  generator yields one by one, then run the code after the loop when the generator
  returned, or the \<^verbatim>\<open>catch\<close> block when it threw; \<^verbatim>\<open>finally\<close> comes last.
\<close>

definition forkFromCheckpoint ::
  "world \<Rightarrow> string \<Rightarrow> string \<Rightarrow> MessageAttachment list option \<Rightarrow> client \<Rightarrow> client" where
  "forkFromCheckpoint w c checkpointId atts st =
     (if trim c = [] \<or> isLoading st then st
      else case currentThreadId st of
        None \<Rightarrow> st
      | Some threadId \<Rightarrow>
          (let st1 = st\<lparr>selectedCheckpoint := None\<rparr>;
               st2 = st1\<lparr>messages := messages st1 @ [user_message w c (or_empty atts)],
                         isLoading := True\<rparr>;
               st3 = st2\<lparr>messages := messages st2 @ [placeholder w]\<rparr>;
               st4 = send_request
                       (ForkRequest c threadId (userId st) checkpointId (or_empty atts)) st3;
               st6 = (case streamFork (json_parse w) (response w) of
                        (events, Returned) \<Rightarrow>
                          refreshThreads w (loadHistory w (foldl (fork_event w (ai_id w)) st4 events))
                      | (events, Thrown) \<Rightarrow>
                          failed_response (ai_id w) (foldl (fork_event w (ai_id w)) st4 events))
           in st6\<lparr>isLoading := False, progressStatus := None\<rparr>))"

text \<open>
  The effect on \<^verbatim>\<open>currentThreadId\<close>: when an operation has changed the thread id, the
  next render runs \<^verbatim>\<open>loadMessages\<close> for the new thread. \<open>rendered\<close> is the thread
  id of the render in which the operation started.
\<close>

definition thread_effect :: "world \<Rightarrow> string option \<Rightarrow> string \<Rightarrow> client \<Rightarrow> client" where
  "thread_effect w rendered threadId st =
     (if rendered = Some threadId then st else loadMessages w threadId st)"

text \<open>
  \<^verbatim>\<open>sendMessage\<close>. A send that creates its thread sets \<^verbatim>\<open>currentThreadId\<close> and so
  triggers the effect above: the messages request goes out at the next render, after the
  chat request, and its reply replaces the display. No loaded message carries the
  placeholder's id, so the events handled after the reply change nothing, and the state
  at the end is the same whenever the reply arrives; the model lets it arrive first.
\<close>

definition sendMessage ::
  "world \<Rightarrow> string \<Rightarrow> MessageAttachment list option \<Rightarrow> client \<Rightarrow> client" where
  "sendMessage w c atts st =
     (if trim c = [] \<or> isLoading st then st
      else
        (let resolved =
               (case currentThreadId st of
                  Some threadId \<Rightarrow> Some (threadId, st)
                | None \<Rightarrow>
                    (case create_thread w of
                       Some thread \<Rightarrow>
                         Some (t_id thread,
                               (send_request (CreateThread (userId st)) st)
                                 \<lparr>threads := thread # threads st,
                                  currentThreadId := Some (t_id thread)\<rparr>)
                     | None \<Rightarrow> None))
         in case resolved of
              None \<Rightarrow> send_request (CreateThread (userId st)) st
            | Some (threadId, st1) \<Rightarrow>
                (let st2 = st1\<lparr>messages := messages st1 @ [user_message w c (or_empty atts)],
                               isLoading := True\<rparr>;
                     st3 = st2\<lparr>messages := messages st2 @ [placeholder w]\<rparr>;
                     st4 = send_request (ChatRequest c threadId (userId st) (or_empty atts)) st3;
                     st5 = thread_effect w (currentThreadId st) threadId st4;
                     st6 = (case streamChat (json_parse w) (response w) of
                              (events, Returned) \<Rightarrow>
                                refreshThreads w (foldl (send_event w (ai_id w)) st5 events)
                            | (events, Thrown) \<Rightarrow>
                                failed_response (ai_id w) (foldl (send_event w (ai_id w)) st5 events))
                 in st6\<lparr>isLoading := False, progressStatus := None\<rparr>)))"

text \<open>\<^verbatim>\<open>originalMessage?.attachments || []\<close> for \<^verbatim>\<open>messages[messageIndex]\<close>.\<close>

definition original_attachments :: "ChatMessage list \<Rightarrow> nat \<Rightarrow> MessageAttachment list" where
  "original_attachments msgs messageIndex =
     (if messageIndex < length msgs then or_empty (attachments (msgs ! messageIndex)) else [])"

text \<open>
  \<^verbatim>\<open>editMessage\<close>. A failing \<^verbatim>\<open>truncateMessages\<close> is caught and the edit goes on, so
  both answers lead to the same state. \<^verbatim>\<open>forkFromCheckpoint\<close> is the callback of the
  same render: it sees the same \<^verbatim>\<open>isLoading\<close> and \<^verbatim>\<open>currentThreadId\<close>.
\<close>

definition editMessage :: "world \<Rightarrow> string \<Rightarrow> nat \<Rightarrow> client \<Rightarrow> client" where
  "editMessage w newContent messageIndex st =
     (if trim newContent = [] \<or> isLoading st then st
      else case currentThreadId st of
        None \<Rightarrow> st
      | Some threadId \<Rightarrow>
          (let originalAttachments = original_attachments (messages st) messageIndex;
               st1 = (if truncate_ok w then send_request (Truncate threadId messageIndex) st
                      else send_request (Truncate threadId messageIndex) st);
               st2 = (if checkpoints st = [] then
                        (case edit_history_reply w of
                           Some history \<Rightarrow>
                             (send_request (FetchHistory threadId) st1)\<lparr>checkpoints := history\<rparr>
                         | None \<Rightarrow> send_request (FetchHistory threadId) st1)
                      else st1);
               history = (if checkpoints st = [] then or_empty (edit_history_reply w)
                          else checkpoints st)
           in case find (\<lambda>cp. length (cp_messages cp) = messageIndex) history of
                Some targetCheckpoint \<Rightarrow>
                  forkFromCheckpoint w newContent (checkpoint_id targetCheckpoint)
                    (Some originalAttachments)
                    (st2\<lparr>messages := take messageIndex (messages st)\<rparr>)
              | None \<Rightarrow>
                  (let st3 = st2\<lparr>messages := take messageIndex (messages st)\<rparr>;
                       st4 = st3\<lparr>messages := messages st3 @ [user_message w newContent originalAttachments],
                                 isLoading := True\<rparr>;
                       st5 = st4\<lparr>messages := messages st4 @ [placeholder w]\<rparr>;
                       st6 = send_request
                               (ChatRequest newContent threadId (userId st) originalAttachments) st5;
                       st8 = (case streamChat (json_parse w) (response w) of
                                (events, Returned) \<Rightarrow>
                                  refreshThreads w
                                    (loadHistory w (foldl (edit_event w (ai_id w)) st6 events))
                              | (events, Thrown) \<Rightarrow>
                                  failed_response (ai_id w)
                                    (foldl (edit_event w (ai_id w)) st6 events))
                   in st8\<lparr>isLoading := False, progressStatus := None\<rparr>)))"

section \<open>Reference functions for the stated properties\<close>

text \<open>
  The events of the lines that start with \<^verbatim>\<open>data: \<close> and whose payload parses, in
  line order.
\<close>

definition data_events :: "parser \<Rightarrow> string list \<Rightarrow> ChatEvent list" where
  "data_events parse ls =
     List.map_filter (\<lambda>line. if prefix ''data: '' line then parse (drop 6 line) else None) ls"

text \<open>The same for one frame, trimmed and split into lines as the reader does.\<close>

definition frame_events :: "parser \<Rightarrow> string \<Rightarrow> ChatEvent list" where
  "frame_events parse frame = data_events parse (split_nl (trim frame))"

text \<open>A sequence of events cut after its first \<^verbatim>\<open>done\<close> or \<^verbatim>\<open>error\<close> event.\<close>

definition upto_terminal :: "ChatEvent list \<Rightarrow> ChatEvent list" where
  "upto_terminal evs =
     takeWhile (\<lambda>e. \<not> is_terminal e) evs @ take 1 (dropWhile (\<lambda>e. \<not> is_terminal e) evs)"

text \<open>
  The wire format as the specification words it: the text is split into frames at double
  line feeds, and every \<^verbatim>\<open>data: \<close> line of every frame yields its event.
\<close>

definition spec_events :: "parser \<Rightarrow> string \<Rightarrow> ChatEvent list" where
  "spec_events parse body_text =
     concat (map (\<lambda>frame. data_events parse (split_nl frame)) (split_nn body_text))"

text \<open>
  What one event does to the message that carries the placeholder's id: the function each
  handler maps over that message. The flag tells whether the handler has the
  \<^verbatim>\<open>"message"\<close> branch (\<^verbatim>\<open>sendMessage\<close> has it, the other two do not).
\<close>

definition reply_update :: "bool \<Rightarrow> ChatMessage \<Rightarrow> ChatEvent \<Rightarrow> ChatMessage" where
  "reply_update with_message msg event =
     (case ev_type event of
        Progress \<Rightarrow> msg
      | Token \<Rightarrow> msg\<lparr>content := content msg @ text_or [] (ev_content event)\<rparr>
      | Message \<Rightarrow>
          if with_message
          then msg\<lparr>content := text_or [] (ev_content event), isStreaming := Some False\<rparr>
          else msg
      | Done \<Rightarrow> msg\<lparr>isStreaming := Some False\<rparr>
      | Error \<Rightarrow>
          msg\<lparr>content := ''Error: '' @ text_or ''Something went wrong'' (ev_content event),
              isStreaming := Some False\<rparr>)"

text \<open>The role names of the wire format.\<close>

definition role_name :: "role \<Rightarrow> string" where
  "role_name r = (case r of Human \<Rightarrow> ''human'' | Ai \<Rightarrow> ''ai'')"

section \<open>Sample data\<close>

definition token_hi :: ChatEvent where
  "token_hi = \<lparr>ev_type = Token, ev_content = Text ''Hi''\<rparr>"

definition message_hello :: ChatEvent where
  "message_hello = \<lparr>ev_type = Message, ev_content = Text ''Hello''\<rparr>"

definition done_event :: ChatEvent where
  "done_event = \<lparr>ev_type = Done, ev_content = Absent\<rparr>"

text \<open>
  \<^verbatim>\<open>JSON.parse\<close> on the payloads of the sample streams; every other text that occurs
  there is not JSON.
\<close>

definition sample_parse :: parser where
  "sample_parse s =
     (if s = ''{\"type\":\"token\",\"content\":\"Hi\"}'' then Some token_hi
      else if s = ''{\"type\":\"message\",\"content\":\"Hello\"}'' then Some message_hello
      else if s = ''{\"type\":\"done\"}'' then Some done_event
      else None)"

text \<open>
  A body in two chunks, the first frame's blank line split between them; the second frame
  holds a malformed line, a \<^verbatim>\<open>done\<close> record and one more record after it.
\<close>

definition sample_chunks :: "string list" where
  "sample_chunks =
     [''data: {\"type\":\"token\",\"content\":\"Hi\"}\<newline>'',
      ''\<newline>data: {not json\<newline>data: {\"type\":\"done\"}\<newline>data: {\"type\":\"token\",\"content\":\"Hi\"}\<newline>\<newline>'']"

definition message_chunks :: "string list" where
  "message_chunks =
     [''data: {\"type\":\"message\",\"content\":\"Hello\"}\<newline>\<newline>data: {\"type\":\"done\"}\<newline>\<newline>'']"

definition sample_thread :: Thread where
  "sample_thread =
     \<lparr>t_id = ''t1'', t_user_id = ''user_demo'', t_title = None, t_created_at = None,
      t_updated_at = None\<rparr>"

definition other_thread :: Thread where
  "other_thread =
     \<lparr>t_id = ''t2'', t_user_id = ''user_demo'', t_title = None, t_created_at = None,
      t_updated_at = None\<rparr>"

definition sample_table :: "Message list" where
  "sample_table =
     [\<lparr>m_id = 1, m_thread_id = ''t1'', m_user_id = Some ''user_demo'', m_role = Human,
       m_content = ''Hi'', m_message_id = None, m_attachments = [], m_created_at = None\<rparr>,
      \<lparr>m_id = 2, m_thread_id = ''t1'', m_user_id = None, m_role = Ai,
       m_content = ''Hi'', m_message_id = None, m_attachments = [], m_created_at = None\<rparr>]"

definition sample_checkpoint :: Checkpoint where
  "sample_checkpoint =
     \<lparr>checkpoint_id = ''cp-1'', cp_thread_id = ''t1'', checkpoint_ns = [],
      parent_checkpoint_id = Some ''cp-0'', cp_created_at = None, step = 1,
      cp_messages = [\<lparr>cm_role = ''human'', cm_content = ''Hi''\<rparr>,
                     \<lparr>cm_role = ''ai'', cm_content = ''Hi''\<rparr>]\<rparr>"

definition empty_checkpoint :: Checkpoint where
  "empty_checkpoint =
     \<lparr>checkpoint_id = ''cp-0'', cp_thread_id = ''t1'', checkpoint_ns = [],
      parent_checkpoint_id = None, cp_created_at = None, step = 0, cp_messages = []\<rparr>"

definition system_checkpoint :: Checkpoint where
  "system_checkpoint =
     \<lparr>checkpoint_id = ''cp-2'', cp_thread_id = ''t1'', checkpoint_ns = [],
      parent_checkpoint_id = None, cp_created_at = None, step = 0,
      cp_messages = [\<lparr>cm_role = ''system'', cm_content = ''You are a gaming assistant''\<rparr>]\<rparr>"

text \<open>A client with thread \<^verbatim>\<open>t1\<close> open, nothing displayed and nothing in flight.\<close>

definition sample_client :: client where
  "sample_client =
     \<lparr>messages = [], isLoading = False, threads = [sample_thread, other_thread],
      currentThreadId = Some ''t1'', progressStatus = None,
      checkpoints = [sample_checkpoint, empty_checkpoint], selectedCheckpoint = None,
      isHistoryLoading = False, showTimeline = True, userId = ''user_demo'', requests = []\<rparr>"

text \<open>The same client after the thread's messages were loaded from the Message table.\<close>

definition loaded_client :: client where
  "loaded_client = sample_client\<lparr>messages := map from_message sample_table\<rparr>"

text \<open>
  An environment in which every call succeeds and the chat stream is \<open>sample_chunks\<close>.
  No sample stream holds a progress event, so \<^verbatim>\<open>JSON.stringify\<close> is never called.
\<close>

definition sample_world :: world where
  "sample_world =
     \<lparr>json_parse = sample_parse, json_stringify = (\<lambda>c. None),
      now_user = 1000, now_ai = 1001,
      create_thread = Some sample_thread, delete_ok = True, truncate_ok = True,
      threads_reply = Some [sample_thread, other_thread], messages_reply = Some sample_table,
      history_reply = Some [sample_checkpoint, empty_checkpoint],
      edit_history_reply = Some [sample_checkpoint, empty_checkpoint],
      response = Response True 200 (Body sample_chunks Closed)\<rparr>"

text \<open>The loaded client when the checkpoint list has no checkpoint of zero messages.\<close>

definition coarse_client :: client where
  "coarse_client = loaded_client\<lparr>checkpoints := [sample_checkpoint]\<rparr>"

text \<open>The loaded client while it previews \<open>sample_checkpoint\<close>.\<close>

definition preview_client :: client where
  "preview_client = selectCheckpoint sample_world (Some sample_checkpoint) loaded_client"

text \<open>The sample environment when the chat request is rejected (network failure).\<close>

definition rejected_world :: world where
  "rejected_world = sample_world\<lparr>response := Rejected\<rparr>"

text \<open>The sample environment when the server refuses to delete a thread.\<close>

definition failed_delete_world :: world where
  "failed_delete_world = sample_world\<lparr>delete_ok := False\<rparr>"

text \<open>The sample environment when the reply arrives as one \<^verbatim>\<open>message\<close> event.\<close>

definition message_world :: world where
  "message_world = sample_world\<lparr>response := Response True 200 (Body message_chunks Closed)\<rparr>"

section \<open>Splitting text at double line feeds\<close>

lemma split_nn_nonempty: "split_nn s \<noteq> []"
  by (induction s rule: split_nn.induct) (auto simp: Let_def)

lemma split_nn_single: "length (split_nn s) = Suc 0 \<Longrightarrow> split_nn s = [s]"
proof (induction s rule: split_nn.induct)
  case (1 a b cs)
  show ?case
  proof (cases "a = NL \<and> b = NL")
    case True
    with 1(3) split_nn_nonempty[of cs] show ?thesis by (cases "split_nn cs") auto
  next
    case False
    from False 1(3) have len: "length (split_nn (b # cs)) = Suc 0"
      by (auto simp: Let_def split_nn_nonempty)
    from 1(2)[OF False len] have "split_nn (b # cs) = [b # cs]" .
    with False show ?thesis by (simp add: Let_def)
  qed
qed auto

lemma split_nn_append:
  "split_nn (a @ b) = butlast (split_nn a) @ split_nn (last (split_nn a) @ b)"
proof (induction a rule: split_nn.induct)
  case (1 x y cs)
  show ?case
  proof (cases "x = NL \<and> y = NL")
    case True
    with 1(1) show ?thesis by (auto simp: split_nn_nonempty)
  next
    case False
    define r where "r = split_nn (y # cs)"
    have rne: "r \<noteq> []" by (simp add: r_def split_nn_nonempty)
    have sa: "split_nn (x # y # cs) = (x # hd r) # tl r"
      using False by (auto simp: Let_def r_def)
    have ih: "split_nn (y # cs @ b) = butlast r @ split_nn (last r @ b)"
      using 1(2)[OF False] by (simp add: r_def)
    have lhs: "split_nn ((x # y # cs) @ b) =
                 (let r' = split_nn (y # cs @ b) in (x # hd r') # tl r')"
      using False by auto
    show ?thesis
    proof (cases "tl r = []")
      case True
      then have "length r = Suc 0" using rne by (cases r) auto
      then have "r = [y # cs]" unfolding r_def by (rule split_nn_single)
      then show ?thesis using sa by simp
    next
      case nt: False
      then obtain p q qs where r: "r = p # q # qs" using rne
        by (cases r; cases "tl r") auto
      show ?thesis using lhs ih sa r by (simp add: Let_def)
    qed
  qed
qed simp_all

lemma split_nn_last_single: "split_nn (last (split_nn s)) = [last (split_nn s)]"
proof (induction s rule: split_nn.induct)
  case (1 a b cs)
  show ?case
  proof (cases "a = NL \<and> b = NL")
    case True
    with 1(1) show ?thesis by (auto simp: split_nn_nonempty)
  next
    case False
    define r where "r = split_nn (b # cs)"
    have rne: "r \<noteq> []" by (simp add: r_def split_nn_nonempty)
    have sa: "split_nn (a # b # cs) = (a # hd r) # tl r"
      using False by (auto simp: Let_def r_def)
    show ?thesis
    proof (cases "tl r = []")
      case True
      then have "length r = Suc 0" using rne by (cases r) auto
      then have "r = [b # cs]" unfolding r_def by (rule split_nn_single)
      then show ?thesis using sa by simp
    next
      case nt: False
      then have "last ((a # hd r) # tl r) = last r" using rne by (cases r) auto
      then show ?thesis using sa 1(2)[OF False] by (simp add: r_def)
    qed
  qed
qed auto

section \<open>What the stream reader yields\<close>

lemma upto_terminal_Nil: "upto_terminal [] = []"
  by (simp add: upto_terminal_def)

lemma upto_terminal_Cons:
  "upto_terminal (e # evs) = (if is_terminal e then [e] else e # upto_terminal evs)"
  by (simp add: upto_terminal_def)

lemma upto_terminal_append:
  "upto_terminal (xs @ ys) =
     (if list_ex is_terminal xs then upto_terminal xs else xs @ upto_terminal ys)"
  by (induction xs) (auto simp: upto_terminal_Cons upto_terminal_Nil)

lemma upto_terminal_id: "\<not> list_ex is_terminal xs \<Longrightarrow> upto_terminal xs = xs"
  by (induction xs) (auto simp: upto_terminal_Cons upto_terminal_Nil)

lemma data_events_Nil: "data_events parse [] = []"
  by (simp add: data_events_def map_filter_simps)

lemma data_events_Cons:
  "data_events parse (l # ls) =
     (if prefix ''data: '' l then
        (case parse (drop 6 l) of None \<Rightarrow> data_events parse ls
         | Some e \<Rightarrow> e # data_events parse ls)
      else data_events parse ls)"
  by (simp add: data_events_def map_filter_simps split: option.splits)

lemma lines_loop_events:
  "lines_loop parse ls =
     (upto_terminal (data_events parse ls), list_ex is_terminal (data_events parse ls))"
proof (induction ls)
  case Nil
  show ?case by (simp add: data_events_Nil upto_terminal_Nil)
next
  case (Cons l ls)
  show ?case
  proof (cases "prefix ''data: '' l")
    case False
    then show ?thesis using Cons by (simp add: data_events_Cons)
  next
    case True
    show ?thesis
    proof (cases "parse (drop 6 l)")
      case None
      then show ?thesis using True Cons by (simp add: data_events_Cons)
    next
      case (Some e)
      then show ?thesis using True Cons
        by (simp add: data_events_Cons upto_terminal_Cons is_terminal_def)
    qed
  qed
qed

lemma frame_events_blank: "trim f = [] \<Longrightarrow> frame_events parse f = []"
  by (simp add: frame_events_def data_events_Cons data_events_Nil)

lemma frames_loop_events:
  "frames_loop parse fs =
     (upto_terminal (concat (map (frame_events parse) fs)),
      list_ex is_terminal (concat (map (frame_events parse) fs)))"
proof (induction fs)
  case Nil
  show ?case by (simp add: upto_terminal_Nil)
next
  case (Cons f fs)
  show ?case
  proof (cases "trim f = []")
    case True
    then show ?thesis using Cons by (simp add: frame_events_blank)
  next
    case False
    have ll: "lines_loop parse (split_nl (trim f)) =
        (upto_terminal (frame_events parse f), list_ex is_terminal (frame_events parse f))"
      by (simp add: lines_loop_events frame_events_def)
    show ?thesis using False Cons ll
      by (simp add: Let_def upto_terminal_append upto_terminal_id)
  qed
qed

lemma remaining_buffer_upto: "upto_terminal (remaining_buffer parse b) = remaining_buffer parse b"
  by (auto simp: remaining_buffer_def Let_def upto_terminal_Cons upto_terminal_Nil split: option.splits)

lemma upto_terminal_split:
  "upto_terminal xs = pre @ ev # post \<Longrightarrow> is_terminal ev \<Longrightarrow> post = [] \<and> list_ex is_terminal xs"
proof (induction xs arbitrary: pre)
  case Nil
  then show ?case by (simp add: upto_terminal_Nil)
next
  case (Cons x xs)
  show ?case
  proof (cases "is_terminal x")
    case True
    with Cons.prems show ?thesis
      by (cases pre) (auto simp: upto_terminal_Cons)
  next
    case False
    with Cons.prems obtain pre' where "pre = x # pre'" "upto_terminal xs = pre' @ ev # post"
      by (cases pre) (auto simp: upto_terminal_Cons)
    with Cons.IH[of pre'] Cons.prems(2) show ?thesis by simp
  qed
qed

lemma read_loop_result:
  "split_nn buffer = [buffer] \<Longrightarrow>
   read_loop parse buffer chunks e =
     (upto_terminal
        (concat (map (frame_events parse) (butlast (split_nn (buffer @ concat chunks))))
         @ (case e of Closed \<Rightarrow> remaining_buffer parse (last (split_nn (buffer @ concat chunks)))
            | Errored \<Rightarrow> [])),
      if list_ex is_terminal
           (concat (map (frame_events parse) (butlast (split_nn (buffer @ concat chunks)))))
      then Returned else (case e of Closed \<Rightarrow> Returned | Errored \<Rightarrow> Thrown))"
proof (induction chunks arbitrary: buffer)
  case Nil
  then show ?case by (cases e) (simp_all add: remaining_buffer_upto upto_terminal_Nil)
next
  case (Cons c cs)
  let ?ms = "split_nn (buffer @ c)"
  define A where "A = concat (map (frame_events parse) (butlast ?ms))"
  define B where "B = concat (map (frame_events parse) (butlast (split_nn (last ?ms @ concat cs))))"
  define R where "R = (case e of Closed \<Rightarrow> remaining_buffer parse (last (split_nn (last ?ms @ concat cs)))
            | Errored \<Rightarrow> [])"
  define K where "K = (case e of Closed \<Rightarrow> Returned | Errored \<Rightarrow> Thrown)"
  have ih: "read_loop parse (last ?ms) cs e =
     (upto_terminal (B @ R), if list_ex is_terminal B then Returned else K)"
    unfolding B_def R_def K_def by (rule Cons.IH) (rule split_nn_last_single)
  have sp: "split_nn (buffer @ concat (c # cs)) = butlast ?ms @ split_nn (last ?ms @ concat cs)"
    using split_nn_append[of "buffer @ c" "concat cs"] by simp
  have bl: "butlast (split_nn (buffer @ concat (c # cs))) =
              butlast ?ms @ butlast (split_nn (last ?ms @ concat cs))"
    unfolding sp by (simp add: butlast_append split_nn_nonempty)
  have la: "last (split_nn (buffer @ concat (c # cs))) = last (split_nn (last ?ms @ concat cs))"
    unfolding sp by (simp add: split_nn_nonempty)
  have step: "read_loop parse buffer (c # cs) e =
      (if list_ex is_terminal A then (upto_terminal A, Returned)
       else (A @ fst (read_loop parse (last ?ms) cs e), snd (read_loop parse (last ?ms) cs e)))"
    by (simp add: Let_def frames_loop_events A_def upto_terminal_id split: prod.splits)
  have "read_loop parse buffer (c # cs) e =
      (upto_terminal ((A @ B) @ R), if list_ex is_terminal (A @ B) then Returned else K)"
    unfolding step ih by (simp add: upto_terminal_append)
  then show ?case
    unfolding bl la by (simp add: A_def B_def R_def K_def)
qed

lemma read_loop_start:
  "read_loop parse [] chunks e =
     (upto_terminal
        (concat (map (frame_events parse) (butlast (split_nn (concat chunks))))
         @ (case e of Closed \<Rightarrow> remaining_buffer parse (last (split_nn (concat chunks)))
            | Errored \<Rightarrow> [])),
      if list_ex is_terminal
           (concat (map (frame_events parse) (butlast (split_nn (concat chunks)))))
      then Returned else (case e of Closed \<Rightarrow> Returned | Errored \<Rightarrow> Thrown))"
  using read_loop_result[of "[]" parse chunks e] by (cases e) simp_all

section \<open>The stream reader: stated properties\<close>

text \<open>
  Claim C7. Once \<^verbatim>\<open>streamChat\<close> or \<^verbatim>\<open>streamFork\<close> has yielded a \<^verbatim>\<open>done\<close> or
  \<^verbatim>\<open>error\<close> event, it yields nothing more and returns, whatever follows in the stream:
  a terminal event can only be the last event yielded, and the generator then ends by
  returning.
\<close>

theorem reader_stops_at_terminal:
  assumes "g = streamChat \<or> g = streamFork"
    and "fst (g parse r) = pre @ ev # post" and "is_terminal ev"
  shows "post = [] \<and> snd (g parse r) = Returned"
proof (cases r)
  case Rejected
  with assms show ?thesis by (auto simp: streamChat_def streamFork_def)
next
  case (Response ok status b)
  show ?thesis
  proof (cases "ok")
    case False
    with Response assms show ?thesis
      by (cases pre) (auto simp: streamChat_def streamFork_def)
  next
    case True
    show ?thesis
    proof (cases b)
      case NoBody
      with True Response assms show ?thesis
        by (cases pre) (auto simp: streamChat_def streamFork_def)
    next
      case (Body chunks e)
      have g: "g parse r = read_loop parse [] chunks e"
        using assms(1) Body True Response by (auto simp: streamChat_def streamFork_def)
      define F where "F = concat (map (frame_events parse) (butlast (split_nn (concat chunks))))"
      define R where "R = (case e of Closed \<Rightarrow> remaining_buffer parse (last (split_nn (concat chunks)))
            | Errored \<Rightarrow> [])"
      have res: "g parse r = (upto_terminal (F @ R),
                   if list_ex is_terminal F then Returned
                   else (case e of Closed \<Rightarrow> Returned | Errored \<Rightarrow> Thrown))"
        unfolding g F_def R_def by (rule read_loop_start)
      from assms(2) res have up: "upto_terminal (F @ R) = pre @ ev # post" by simp
      from upto_terminal_split[OF up assms(3)] have post: "post = []" and ex: "list_ex is_terminal (F @ R)"
        by simp_all
      have "snd (g parse r) = Returned"
      proof (cases e)
        case Closed
        then show ?thesis using res by simp
      next
        case Errored
        then have "R = []" by (simp add: R_def)
        with ex res show ?thesis by simp
      qed
      with post show ?thesis by simp
    qed
  qed
qed

theorem reader_stops_at_terminal_witness:
  "fst (streamChat sample_parse (Response True 200 (Body sample_chunks Closed)))
     = [token_hi] @ done_event # []
   \<and> is_terminal done_event
   \<and> snd (streamChat sample_parse (Response True 200 (Body sample_chunks Closed))) = Returned
   \<and> fst (streamFork sample_parse (Response True 200 (Body sample_chunks Errored)))
     = [token_hi] @ done_event # []
   \<and> snd (streamFork sample_parse (Response True 200 (Body sample_chunks Errored))) = Returned"
proof -
  have a: "fst (streamChat sample_parse (Response True 200 (Body sample_chunks Closed)))
             = [token_hi] @ done_event # []"
    by code_simp
  have b: "fst (streamFork sample_parse (Response True 200 (Body sample_chunks Errored)))
             = [token_hi] @ done_event # []"
    by code_simp
  have t: "is_terminal done_event"
    by code_simp
  have c: "snd (streamChat sample_parse (Response True 200 (Body sample_chunks Closed))) = Returned"
    using reader_stops_at_terminal [OF disjI1 [OF refl] a t] by (rule conjunct2)
  have d: "snd (streamFork sample_parse (Response True 200 (Body sample_chunks Errored))) = Returned"
    using reader_stops_at_terminal [OF disjI2 [OF refl] b t] by (rule conjunct2)
  from a b t c d show ?thesis by blast
qed

text \<open>
  Claim C8, as stated: every \<^verbatim>\<open>data: \<close> line of every frame yields its event. It
  fails on the sample body, whose second frame has a record after \<^verbatim>\<open>done\<close>: the reader
  stops at \<^verbatim>\<open>done\<close>.
\<close>

theorem reader_events_counterexample:
  "fst (streamChat sample_parse (Response True 200 (Body sample_chunks Closed)))
     \<noteq> spec_events sample_parse (concat sample_chunks)"
  by code_simp

text \<open>
  Claim C8, amended. For a response body whose last double line feed is followed by
  white space only, delivered in any chunks, the reader yields exactly this: the body is
  split at double line feeds; each frame is trimmed and split into lines; every line that
  starts with \<^verbatim>\<open>data: \<close> and whose payload parses yields its event, in order; lines
  without the prefix or with a payload that does not parse yield nothing; and the
  sequence is cut after the first \<^verbatim>\<open>done\<close> or \<^verbatim>\<open>error\<close> event.
\<close>

theorem reader_events:
  assumes "trim (last (split_nn (concat chunks))) = []"
  shows "fst (streamChat parse (Response True status (Body chunks e))) =
           upto_terminal (concat (map (frame_events parse) (butlast (split_nn (concat chunks)))))"
proof -
  have "remaining_buffer parse (last (split_nn (concat chunks))) = []"
    using assms by (simp add: remaining_buffer_def)
  then show ?thesis
    by (cases e) (simp_all add: streamChat_def read_loop_start)
qed

theorem reader_events_witness:
  "trim (last (split_nn (concat sample_chunks))) = []
   \<and> fst (streamChat sample_parse (Response True 200 (Body sample_chunks Closed)))
       = [token_hi, done_event]"
proof -
  have h: "trim (last (split_nn (concat sample_chunks))) = []"
    by code_simp
  have v: "upto_terminal (concat (map (frame_events sample_parse)
              (butlast (split_nn (concat sample_chunks))))) = [token_hi, done_event]"
    by code_simp
  have "fst (streamChat sample_parse (Response True 200 (Body sample_chunks Closed)))
          = [token_hi, done_event]"
    using reader_events [OF h, of sample_parse 200 Closed] unfolding v .
  with h show ?thesis by (rule conjI)
qed



section \<open>The controller: how the handlers act on the display\<close>

lemma update_message_fresh:
  "msg_id p = a \<Longrightarrow> a \<notin> msg_id ` set pre \<Longrightarrow> update_message a f (pre @ [p]) = pre @ [f p]"
  by (induction pre) (auto simp: update_message_def)

lemma update_message_same: "update_message a (\<lambda>msg. msg) prev = prev"
  by (induction prev) (auto simp: update_message_def)

lemma reply_update_id: "msg_id (reply_update b m ev) = msg_id m"
  by (cases "ev_type ev") (simp_all add: reply_update_def)

lemma fold_reply_id: "msg_id (foldl (reply_update b) m evs) = msg_id m"
  by (induction evs arbitrary: m) (simp_all add: reply_update_id)

lemma send_event_eq:
  "send_event w a s ev =
     s\<lparr>messages := update_message a (\<lambda>m. reply_update True m ev) (messages s),
       progressStatus := progressStatus (send_event w a s ev)\<rparr>"
  by (cases "ev_type ev") (simp_all add: send_event_def reply_update_def update_message_same)

lemma send_event_step:
  "\<exists>ps. send_event w a s ev =
     s\<lparr>messages := update_message a (\<lambda>m. reply_update True m ev) (messages s),
       progressStatus := ps\<rparr>"
  using send_event_eq by blast

lemma fork_event_eq:
  "fork_event w a s ev =
     s\<lparr>messages := update_message a (\<lambda>m. reply_update False m ev) (messages s),
       progressStatus := progressStatus (fork_event w a s ev)\<rparr>"
  by (cases "ev_type ev") (simp_all add: fork_event_def reply_update_def update_message_same)

lemma fork_event_step:
  "\<exists>ps. fork_event w a s ev =
     s\<lparr>messages := update_message a (\<lambda>m. reply_update False m ev) (messages s),
       progressStatus := ps\<rparr>"
  using fork_event_eq by blast

lemma edit_event_eq:
  "edit_event w a s ev =
     s\<lparr>messages := update_message a (\<lambda>m. reply_update False m ev) (messages s),
       progressStatus := progressStatus (edit_event w a s ev)\<rparr>"
  by (cases "ev_type ev") (simp_all add: edit_event_def reply_update_def update_message_same)

lemma edit_event_step:
  "\<exists>ps. edit_event w a s ev =
     s\<lparr>messages := update_message a (\<lambda>m. reply_update False m ev) (messages s),
       progressStatus := ps\<rparr>"
  using edit_event_eq by blast

lemma fold_handler:
  assumes step: "\<And>s ev. \<exists>ps. h s ev =
       s\<lparr>messages := update_message a (\<lambda>m. reply_update b m ev) (messages s), progressStatus := ps\<rparr>"
    and "messages s = pre @ [p]" and "msg_id p = a" and "a \<notin> msg_id ` set pre"
  shows "\<exists>ps. foldl h s evs =
           s\<lparr>messages := pre @ [foldl (reply_update b) p evs], progressStatus := ps\<rparr>"
  using assms(2,3)
proof (induction evs arbitrary: s p)
  case Nil
  have "s = s\<lparr>messages := pre @ [p], progressStatus := progressStatus s\<rparr>"
    using Nil by simp
  then show ?case by (metis foldl_Nil)
next
  case (Cons ev evs)
  from step obtain ps where hs: "h s ev =
       s\<lparr>messages := update_message a (\<lambda>m. reply_update b m ev) (messages s), progressStatus := ps\<rparr>"
    by blast
  have um: "update_message a (\<lambda>m. reply_update b m ev) (messages s) = pre @ [reply_update b p ev]"
    using Cons.prems assms(4) by (simp add: update_message_fresh)
  have m1: "messages (h s ev) = pre @ [reply_update b p ev]"
    using hs um by simp
  have i1: "msg_id (reply_update b p ev) = a"
    using Cons.prems by (simp add: reply_update_id)
  from Cons.IH[OF m1 i1] obtain ps' where
    "foldl h (h s ev) evs =
       (h s ev)\<lparr>messages := pre @ [foldl (reply_update b) (reply_update b p ev) evs],
                 progressStatus := ps'\<rparr>"
    by blast
  then have "foldl h s (ev # evs) =
       s\<lparr>messages := pre @ [foldl (reply_update b) p (ev # evs)], progressStatus := ps'\<rparr>"
    using hs by simp
  then show ?case by blast
qed

lemma fold_handler_frame:
  assumes step: "\<And>s ev. \<exists>ps. h s ev =
       s\<lparr>messages := update_message a (\<lambda>m. reply_update b m ev) (messages s), progressStatus := ps\<rparr>"
  shows "\<exists>ms ps. foldl h s evs = s\<lparr>messages := ms, progressStatus := ps\<rparr>"
proof (induction evs arbitrary: s)
  case Nil
  have "s = s\<lparr>messages := messages s, progressStatus := progressStatus s\<rparr>" by simp
  then show ?case by (metis foldl_Nil)
next
  case (Cons ev evs)
  from step obtain ps where hs: "h s ev =
       s\<lparr>messages := update_message a (\<lambda>m. reply_update b m ev) (messages s), progressStatus := ps\<rparr>"
    by blast
  from Cons.IH[of "h s ev"] obtain ms' ps' where
    "foldl h (h s ev) evs = (h s ev)\<lparr>messages := ms', progressStatus := ps'\<rparr>" by blast
  then have "foldl h s (ev # evs) = s\<lparr>messages := ms', progressStatus := ps'\<rparr>"
    using hs by simp
  then show ?case by blast
qed

lemma user_not_ai: "msg_id (user_message w c atts) \<noteq> ai_id w"
  by (simp add: user_message_def ai_id_def)

lemma placeholder_id: "msg_id (placeholder w) = ai_id w"
  by (simp add: placeholder_def)

lemma refreshThreads_messages: "messages (refreshThreads w s) = messages s"
  by (simp add: refreshThreads_def send_request_def Let_def split: option.splits)

lemma refreshThreads_requests: "requests (refreshThreads w s) = requests s @ [FetchThreads (userId s)]"
  by (simp add: refreshThreads_def send_request_def Let_def split: option.splits)

lemma loadHistory_messages: "messages (loadHistory w s) = messages s"
  by (simp add: loadHistory_def send_request_def Let_def split: option.splits)

lemma loadHistory_userId: "userId (loadHistory w s) = userId s"
  by (simp add: loadHistory_def send_request_def Let_def split: option.splits)

lemma loadHistory_requests:
  "requests (loadHistory w s) =
     requests s @ (case currentThreadId s of Some t \<Rightarrow> [FetchHistory t] | None \<Rightarrow> [])"
  by (simp add: loadHistory_def send_request_def Let_def split: option.splits)

lemma failed_response_requests: "requests (failed_response a s) = requests s"
  by (simp add: failed_response_def)

lemma stream_completion_same: "snd (streamFork parse r) = snd (streamChat parse r)"
  by (simp add: streamFork_def streamChat_def split: fetch_result.splits body.splits)

lemma fork_requests:
  assumes "trim c \<noteq> []" and "\<not> isLoading s" and "currentThreadId s = Some tid"
  shows "requests (forkFromCheckpoint w c cid atts s) =
           requests s @ ForkRequest c tid (userId s) cid (or_empty atts) #
             (if snd (streamChat (json_parse w) (response w)) = Returned
              then [FetchHistory tid, FetchThreads (userId s)] else [])"
proof -
  obtain events outcome where sf: "streamFork (json_parse w) (response w) = (events, outcome)"
    by (cases "streamFork (json_parse w) (response w)")
  then have oc: "snd (streamChat (json_parse w) (response w)) = outcome"
    using stream_completion_same[of "json_parse w" "response w"] by simp
  define s4 where "s4 = send_request (ForkRequest c tid (userId s) cid (or_empty atts))
     (s\<lparr>selectedCheckpoint := None,
        messages := messages s @ [user_message w c (or_empty atts)], isLoading := True,
        messages := (messages s @ [user_message w c (or_empty atts)]) @ [placeholder w]\<rparr>)"
  from fold_handler_frame[of "fork_event w (ai_id w)" "ai_id w" False s4 events, OF fork_event_step]
  obtain ms ps where fold: "foldl (fork_event w (ai_id w)) s4 events =
      s4\<lparr>messages := ms, progressStatus := ps\<rparr>"
    by blast
  show ?thesis
  proof (cases outcome)
    case Returned
    then have run: "forkFromCheckpoint w c cid atts s =
      (refreshThreads w (loadHistory w (foldl (fork_event w (ai_id w)) s4 events)))
        \<lparr>isLoading := False, progressStatus := None\<rparr>"
      using assms sf by (simp add: forkFromCheckpoint_def Let_def s4_def)
    show ?thesis unfolding run fold using Returned oc assms(3)
      by (simp add: refreshThreads_requests loadHistory_requests loadHistory_userId
          s4_def send_request_def)
  next
    case Thrown
    then have run: "forkFromCheckpoint w c cid atts s =
      (failed_response (ai_id w) (foldl (fork_event w (ai_id w)) s4 events))
        \<lparr>isLoading := False, progressStatus := None\<rparr>"
      using assms sf by (simp add: forkFromCheckpoint_def Let_def s4_def)
    show ?thesis unfolding run fold using Thrown oc
      by (simp add: failed_response_requests s4_def send_request_def)
  qed
qed

lemma fork_messages:
  assumes "trim c \<noteq> []" and "\<not> isLoading s" and "currentThreadId s = Some tid"
    and "ai_id w \<notin> msg_id ` set (messages s)"
  shows "butlast (messages (forkFromCheckpoint w c cid atts s)) =
           messages s @ [user_message w c (or_empty atts)]
       \<and> msg_id (last (messages (forkFromCheckpoint w c cid atts s))) = ai_id w"
proof -
  obtain events outcome where sf: "streamFork (json_parse w) (response w) = (events, outcome)"
    by (cases "streamFork (json_parse w) (response w)")
  define s4 where "s4 = send_request (ForkRequest c tid (userId s) cid (or_empty atts))
     (s\<lparr>selectedCheckpoint := None,
        messages := messages s @ [user_message w c (or_empty atts)], isLoading := True,
        messages := (messages s @ [user_message w c (or_empty atts)]) @ [placeholder w]\<rparr>)"
  define pre where "pre = messages s @ [user_message w c (or_empty atts)]"
  define p where "p = foldl (reply_update False) (placeholder w) events"
  have m4: "messages s4 = pre @ [placeholder w]"
    by (simp add: s4_def send_request_def pre_def)
  have fresh: "ai_id w \<notin> msg_id ` set pre"
    using assms(4) user_not_ai[of w c "or_empty atts"] by (auto simp: pre_def)
  have pid: "msg_id p = ai_id w"
    by (simp add: p_def fold_reply_id placeholder_id)
  from fold_handler[of "fork_event w (ai_id w)" "ai_id w" False s4, OF fork_event_step m4 placeholder_id fresh]
  obtain ps where fold: "foldl (fork_event w (ai_id w)) s4 events =
      s4\<lparr>messages := pre @ [p], progressStatus := ps\<rparr>"
    unfolding p_def by blast
  show ?thesis
  proof (cases outcome)
    case Returned
    then have run: "forkFromCheckpoint w c cid atts s =
      (refreshThreads w (loadHistory w (foldl (fork_event w (ai_id w)) s4 events)))
        \<lparr>isLoading := False, progressStatus := None\<rparr>"
      using assms sf by (simp add: forkFromCheckpoint_def Let_def s4_def)
    show ?thesis unfolding run fold using pid
      by (simp add: refreshThreads_messages loadHistory_messages pre_def butlast_append)
  next
    case Thrown
    then have run: "forkFromCheckpoint w c cid atts s =
      (failed_response (ai_id w) (foldl (fork_event w (ai_id w)) s4 events))
        \<lparr>isLoading := False, progressStatus := None\<rparr>"
      using assms sf by (simp add: forkFromCheckpoint_def Let_def s4_def)
    show ?thesis unfolding run fold using pid fresh
      by (simp add: failed_response_def update_message_fresh butlast_append) (simp add: pre_def)
  qed
qed

lemma regenerate_requests:
  assumes "currentThreadId s = Some tid"
  shows "requests
      ((case streamChat (json_parse w) (response w) of
          (events, Returned) \<Rightarrow>
            refreshThreads w (loadHistory w (foldl (edit_event w (ai_id w)) s events))
        | (events, Thrown) \<Rightarrow>
            failed_response (ai_id w) (foldl (edit_event w (ai_id w)) s events))
        \<lparr>isLoading := False, progressStatus := None\<rparr>) =
     requests s @
       (if snd (streamChat (json_parse w) (response w)) = Returned
        then [FetchHistory tid, FetchThreads (userId s)] else [])"
proof -
  obtain events outcome where sf: "streamChat (json_parse w) (response w) = (events, outcome)"
    by (cases "streamChat (json_parse w) (response w)")
  from fold_handler_frame[of "edit_event w (ai_id w)" "ai_id w" False s events, OF edit_event_step]
  obtain ms ps where fold: "foldl (edit_event w (ai_id w)) s events =
      s\<lparr>messages := ms, progressStatus := ps\<rparr>"
    by blast
  show ?thesis using sf fold assms
    by (cases outcome)
       (simp_all add: refreshThreads_requests loadHistory_requests loadHistory_userId
          failed_response_requests)
qed

lemma regenerate_messages:
  assumes "messages s = pre @ [placeholder w]" and "ai_id w \<notin> msg_id ` set pre"
  shows "butlast (messages
      ((case streamChat (json_parse w) (response w) of
          (events, Returned) \<Rightarrow>
            refreshThreads w (loadHistory w (foldl (edit_event w (ai_id w)) s events))
        | (events, Thrown) \<Rightarrow>
            failed_response (ai_id w) (foldl (edit_event w (ai_id w)) s events))
        \<lparr>isLoading := False, progressStatus := None\<rparr>)) = pre
    \<and> msg_id (last (messages
      ((case streamChat (json_parse w) (response w) of
          (events, Returned) \<Rightarrow>
            refreshThreads w (loadHistory w (foldl (edit_event w (ai_id w)) s events))
        | (events, Thrown) \<Rightarrow>
            failed_response (ai_id w) (foldl (edit_event w (ai_id w)) s events))
        \<lparr>isLoading := False, progressStatus := None\<rparr>))) = ai_id w"
proof -
  obtain events outcome where sf: "streamChat (json_parse w) (response w) = (events, outcome)"
    by (cases "streamChat (json_parse w) (response w)")
  define p where "p = foldl (reply_update False) (placeholder w) events"
  have pid: "msg_id p = ai_id w"
    by (simp add: p_def fold_reply_id placeholder_id)
  from fold_handler[of "edit_event w (ai_id w)" "ai_id w" False s, OF edit_event_step assms(1) placeholder_id assms(2)]
  obtain ps where fold: "foldl (edit_event w (ai_id w)) s events =
      s\<lparr>messages := pre @ [p], progressStatus := ps\<rparr>"
    unfolding p_def by blast
  show ?thesis using sf fold pid assms(2)
    by (cases outcome)
       (simp_all add: refreshThreads_messages loadHistory_messages failed_response_def
          update_message_fresh)
qed

lemma map_enumerate_snd: "map (\<lambda>p. f (snd p)) (enumerate n xs) = map f xs"
  by (induction xs arbitrary: n) simp_all

section \<open>The controller: stated properties\<close>

text \<open>
  Claim C1. An edit of the message at display index \<open>i\<close> that passes the entry guard
  (content not blank, no request in flight, a thread selected) sends, in this order: the
  truncation of the Message table to the first \<open>i\<close> messages; the history request, only
  when no checkpoint list was loaded yet; then one stream request, which is a fork request
  carrying the edited content and the id of the first checkpoint whose recorded messages
  number exactly \<open>i\<close> when there is one, and a plain chat request with the edited content
  when there is none; and, once the stream has returned, the history and thread list
  requests. In both cases the display becomes its first \<open>i\<close> messages, followed by the
  edited human message and the reply placeholder. The placeholder id is assumed not to
  occur among the kept messages.
\<close>

theorem editMessage_algorithm:
  assumes "trim newContent \<noteq> []" and "\<not> isLoading st" and "currentThreadId st = Some threadId"
    and "ai_id w \<notin> msg_id ` set (take i (messages st))"
  shows
   "requests (editMessage w newContent i st) =
      requests st @ Truncate threadId i #
      (if checkpoints st = [] then [FetchHistory threadId] else []) @
      (case find (\<lambda>cp. length (cp_messages cp) = i)
              (if checkpoints st = [] then or_empty (edit_history_reply w) else checkpoints st) of
         Some cp \<Rightarrow> ForkRequest newContent threadId (userId st) (checkpoint_id cp)
                      (original_attachments (messages st) i)
       | None \<Rightarrow> ChatRequest newContent threadId (userId st)
                   (original_attachments (messages st) i)) #
      (if snd (streamChat (json_parse w) (response w)) = Returned
       then [FetchHistory threadId, FetchThreads (userId st)] else [])
    \<and> butlast (messages (editMessage w newContent i st)) =
        take i (messages st) @ [user_message w newContent (original_attachments (messages st) i)]
    \<and> msg_id (last (messages (editMessage w newContent i st))) = ai_id w"
proof -
  define atts where "atts = original_attachments (messages st) i"
  define history where
    "history = (if checkpoints st = [] then or_empty (edit_history_reply w) else checkpoints st)"
  define st2 where "st2 =
     (if checkpoints st = [] then
        (case edit_history_reply w of
           Some h \<Rightarrow>
             (send_request (FetchHistory threadId) (send_request (Truncate threadId i) st))
               \<lparr>checkpoints := h\<rparr>
         | None \<Rightarrow> send_request (FetchHistory threadId) (send_request (Truncate threadId i) st))
      else send_request (Truncate threadId i) st)"
  define st3 where "st3 = st2\<lparr>messages := take i (messages st)\<rparr>"
  have r3: "requests st3 = requests st @ Truncate threadId i #
              (if checkpoints st = [] then [FetchHistory threadId] else [])"
    and u3: "userId st3 = userId st" and l3: "\<not> isLoading st3"
    and c3: "currentThreadId st3 = Some threadId" and m3: "messages st3 = take i (messages st)"
    using assms(2,3)
    by (simp_all add: st3_def st2_def send_request_def split: option.splits)
  show ?thesis
  proof (cases "find (\<lambda>cp. length (cp_messages cp) = i) history")
    case (Some cp)
    have e: "editMessage w newContent i st =
               forkFromCheckpoint w newContent (checkpoint_id cp) (Some atts) st3"
      using assms(1,2,3) Some[unfolded history_def]
      by (simp add: editMessage_def Let_def atts_def st3_def st2_def)
    have fresh: "ai_id w \<notin> msg_id ` set (messages st3)"
      using assms(4) m3 by simp
    from fork_requests[OF assms(1) l3 c3, of w "checkpoint_id cp" "Some atts"]
         fork_messages[OF assms(1) l3 c3 fresh, of "checkpoint_id cp" "Some atts"]
    show ?thesis
      unfolding e using Some r3 u3 m3
      by (simp add: or_empty_def atts_def history_def)
  next
    case None
    define s6 where "s6 = send_request (ChatRequest newContent threadId (userId st) atts)
                    (st3\<lparr>messages := messages st3 @ [user_message w newContent atts],
                         isLoading := True,
                         messages := (messages st3 @ [user_message w newContent atts])
                                     @ [placeholder w]\<rparr>)"
    have e: "editMessage w newContent i st =
          (case streamChat (json_parse w) (response w) of
             (events, Returned) \<Rightarrow>
               refreshThreads w (loadHistory w (foldl (edit_event w (ai_id w)) s6 events))
           | (events, Thrown) \<Rightarrow>
               failed_response (ai_id w) (foldl (edit_event w (ai_id w)) s6 events))
            \<lparr>isLoading := False, progressStatus := None\<rparr>"
      using assms(1,2,3) None[unfolded history_def]
      by (simp add: editMessage_def Let_def atts_def st3_def st2_def s6_def)
    have c6: "currentThreadId s6 = Some threadId"
      and r6: "requests s6 = requests st3 @ [ChatRequest newContent threadId (userId st) atts]"
      and u6: "userId s6 = userId st"
      and m6: "messages s6 = (take i (messages st) @ [user_message w newContent atts]) @ [placeholder w]"
      using c3 u3 m3 by (simp_all add: s6_def send_request_def)
    have fresh: "ai_id w \<notin> msg_id ` set (take i (messages st) @ [user_message w newContent atts])"
      using assms(4) user_not_ai[of w newContent atts] by auto
    from regenerate_requests[OF c6, of w] regenerate_messages[OF m6 fresh]
    show ?thesis
      unfolding e using None r3 r6 u6
      by (simp add: atts_def history_def)
  qed
qed

theorem editMessage_algorithm_witness:
  "trim ''Hello'' \<noteq> [] \<and> \<not> isLoading loaded_client
   \<and> currentThreadId loaded_client = Some ''t1''
   \<and> ai_id sample_world \<notin> msg_id ` set (take 0 (messages loaded_client))
   \<and> requests (editMessage sample_world ''Hello'' 0 loaded_client)
      = [Truncate ''t1'' 0, ForkRequest ''Hello'' ''t1'' ''user_demo'' ''cp-0'' [],
         FetchHistory ''t1'', FetchThreads ''user_demo'']
   \<and> \<not> isLoading coarse_client \<and> currentThreadId coarse_client = Some ''t1''
   \<and> ai_id sample_world \<notin> msg_id ` set (take 0 (messages coarse_client))
   \<and> requests (editMessage sample_world ''Hello'' 0 coarse_client)
      = [Truncate ''t1'' 0, ChatRequest ''Hello'' ''t1'' ''user_demo'' [],
         FetchHistory ''t1'', FetchThreads ''user_demo'']
   \<and> map msg_id (butlast (messages (editMessage sample_world ''Hello'' 0 coarse_client)))
      = [''user-1000'']"
proof -
  have h1: "trim ''Hello'' \<noteq> []" by code_simp
  have h2: "\<not> isLoading loaded_client" by code_simp
  have h3: "currentThreadId loaded_client = Some ''t1''" by code_simp
  have h4: "ai_id sample_world \<notin> msg_id ` set (take 0 (messages loaded_client))" by code_simp
  have k2: "\<not> isLoading coarse_client" by code_simp
  have k3: "currentThreadId coarse_client = Some ''t1''" by code_simp
  have k4: "ai_id sample_world \<notin> msg_id ` set (take 0 (messages coarse_client))" by code_simp
  note F = editMessage_algorithm [OF h1 h2 h3 h4]
  note G = editMessage_algorithm [OF h1 k2 k3 k4]
  have a: "requests (editMessage sample_world ''Hello'' 0 loaded_client)
      = [Truncate ''t1'' 0, ForkRequest ''Hello'' ''t1'' ''user_demo'' ''cp-0'' [],
         FetchHistory ''t1'', FetchThreads ''user_demo'']"
    by (subst F [THEN conjunct1]) code_simp
  have b: "requests (editMessage sample_world ''Hello'' 0 coarse_client)
      = [Truncate ''t1'' 0, ChatRequest ''Hello'' ''t1'' ''user_demo'' [],
         FetchHistory ''t1'', FetchThreads ''user_demo'']"
    by (subst G [THEN conjunct1]) code_simp
  have c: "map msg_id (butlast (messages (editMessage sample_world ''Hello'' 0 coarse_client)))
      = [''user-1000'']"
    by (subst G [THEN conjunct2, THEN conjunct1]) code_simp
  from h1 h2 h3 h4 k2 k3 k4 a b c show ?thesis by blast
qed

text \<open>
  Claim C2. Sending while a checkpoint is previewed does not leave the preview: on
  \<open>preview_client\<close> the selection is still \<open>sample_checkpoint\<close> after
  \<^verbatim>\<open>sendMessage\<close>, and the display holds the checkpoint's two messages followed by the
  new human message and the reply. \<^verbatim>\<open>forkFromCheckpoint\<close> on the same state clears the
  selection.
\<close>

theorem send_in_preview_keeps_selection:
  "selectedCheckpoint preview_client = Some sample_checkpoint
   \<and> selectedCheckpoint (sendMessage sample_world ''Hi'' None preview_client) = Some sample_checkpoint
   \<and> map msg_id (messages (sendMessage sample_world ''Hi'' None preview_client))
      = [''checkpoint-cp-1-0'', ''checkpoint-cp-1-1'', ''user-1000'', ''ai-1001'']
   \<and> selectedCheckpoint (forkFromCheckpoint sample_world ''Hi'' ''cp-1'' None preview_client) = None"
  by code_simp

text \<open>
  Claim C3, as stated: the thread list is refreshed after the stream on every outcome.
  When the chat request is rejected the stream throws: the send has issued its chat request
  and shows the failure text, and no thread list request follows.
\<close>

theorem sendMessage_refresh_counterexample:
  "requests (sendMessage rejected_world ''Hi'' None sample_client)
     = [ChatRequest ''Hi'' ''t1'' ''user_demo'' []]
   \<and> map content (messages (sendMessage rejected_world ''Hi'' None sample_client))
     = [''Hi'', ''Failed to get response. Please try again.'']"
  by code_simp

text \<open>
  Claim C3, amended. A send that passes the entry guard (content not blank, no request in
  flight) while a thread is selected sends the chat request and leaves the display as the
  old display, followed by the human message and the reply placeholder. The placeholder
  starts empty with the streaming flag set and takes the events the stream yields, in
  arrival order: a token event appends its text to the content, a \<^verbatim>\<open>done\<close> event only
  clears the streaming flag, and an \<^verbatim>\<open>error\<close> event sets the content to
  \<^verbatim>\<open>Error: \<close> followed by its text and clears the flag. When the stream has returned,
  the refresh of the thread list is the one request that follows; when it has thrown,
  the placeholder's content becomes the failure text, its flag is cleared, and no request
  follows. The placeholder id is assumed not to occur in the old display.
\<close>

theorem sendMessage_stream:
  assumes "trim c \<noteq> []" and "\<not> isLoading st"
    and "currentThreadId st = Some threadId"
    and "ai_id w \<notin> msg_id ` set (messages st)"
  shows "messages (sendMessage w c atts st) =
           messages st @
             [user_message w c (or_empty atts),
              (if snd (streamChat (json_parse w) (response w)) = Returned
               then foldl (reply_update True) (placeholder w)
                      (fst (streamChat (json_parse w) (response w)))
               else (foldl (reply_update True) (placeholder w)
                      (fst (streamChat (json_parse w) (response w))))
                      \<lparr>content := ''Failed to get response. Please try again.'',
                       isStreaming := Some False\<rparr>)]
       \<and> requests (sendMessage w c atts st) =
           requests st @ ChatRequest c threadId (userId st) (or_empty atts) #
             (if snd (streamChat (json_parse w) (response w)) = Returned
              then [FetchThreads (userId st)] else [])
       \<and> role (placeholder w) = Ai \<and> content (placeholder w) = []
       \<and> isStreaming (placeholder w) = Some True
       \<and> reply_update True m \<lparr>ev_type = Token, ev_content = Text t\<rparr> = m\<lparr>content := content m @ t\<rparr>
       \<and> reply_update True m \<lparr>ev_type = Done, ev_content = x\<rparr> = m\<lparr>isStreaming := Some False\<rparr>
       \<and> reply_update True m \<lparr>ev_type = Error, ev_content = Text t\<rparr>
            = m\<lparr>content := ''Error: '' @ t, isStreaming := Some False\<rparr>"
proof -
  obtain events outcome where sf: "streamChat (json_parse w) (response w) = (events, outcome)"
    by (cases "streamChat (json_parse w) (response w)")
  define pre where "pre = messages st @ [user_message w c (or_empty atts)]"
  define p where "p = foldl (reply_update True) (placeholder w) events"
  define s4 where "s4 = send_request (ChatRequest c threadId (userId st) (or_empty atts))
     (st\<lparr>messages := messages st @ [user_message w c (or_empty atts)], isLoading := True,
         messages := (messages st @ [user_message w c (or_empty atts)]) @ [placeholder w]\<rparr>)"
  have m4: "messages s4 = pre @ [placeholder w]"
    by (simp add: s4_def send_request_def pre_def)
  have r4: "requests s4 = requests st @ [ChatRequest c threadId (userId st) (or_empty atts)]"
    and u4: "userId s4 = userId st"
    by (simp_all add: s4_def send_request_def)
  have fresh: "ai_id w \<notin> msg_id ` set pre"
    using assms(4) user_not_ai[of w c "or_empty atts"] by (auto simp: pre_def)
  have pid: "msg_id p = ai_id w"
    by (simp add: p_def fold_reply_id placeholder_id)
  from fold_handler[of "send_event w (ai_id w)" "ai_id w" True s4, OF send_event_step m4 placeholder_id fresh]
  obtain ps where fold: "foldl (send_event w (ai_id w)) s4 events =
      s4\<lparr>messages := pre @ [p], progressStatus := ps\<rparr>"
    unfolding p_def by blast
  have ab: "messages (sendMessage w c atts st) =
           pre @ [if outcome = Returned then p
                  else p\<lparr>content := ''Failed to get response. Please try again.'',
                         isStreaming := Some False\<rparr>]
       \<and> requests (sendMessage w c atts st) =
           requests st @ ChatRequest c threadId (userId st) (or_empty atts) #
             (if outcome = Returned then [FetchThreads (userId st)] else [])"
  proof (cases outcome)
    case Returned
    then have run: "sendMessage w c atts st =
      (refreshThreads w (foldl (send_event w (ai_id w)) s4 events))
        \<lparr>isLoading := False, progressStatus := None\<rparr>"
      using assms(1,2,3) sf by (simp add: sendMessage_def Let_def s4_def thread_effect_def)
    show ?thesis unfolding run fold using Returned
      by (simp add: refreshThreads_messages refreshThreads_requests r4 u4)
  next
    case Thrown
    then have run: "sendMessage w c atts st =
      (failed_response (ai_id w) (foldl (send_event w (ai_id w)) s4 events))
        \<lparr>isLoading := False, progressStatus := None\<rparr>"
      using assms(1,2,3) sf by (simp add: sendMessage_def Let_def s4_def thread_effect_def)
    show ?thesis unfolding run fold using Thrown pid fresh
      by (simp add: failed_response_def update_message_fresh r4)
  qed
  have c: "role (placeholder w) = Ai \<and> content (placeholder w) = []
       \<and> isStreaming (placeholder w) = Some True"
    by (simp add: placeholder_def)
  have d: "reply_update True m \<lparr>ev_type = Token, ev_content = Text t\<rparr> = m\<lparr>content := content m @ t\<rparr>
       \<and> reply_update True m \<lparr>ev_type = Done, ev_content = x\<rparr> = m\<lparr>isStreaming := Some False\<rparr>
       \<and> reply_update True m \<lparr>ev_type = Error, ev_content = Text t\<rparr>
            = m\<lparr>content := ''Error: '' @ t, isStreaming := Some False\<rparr>"
    by (simp add: reply_update_def text_or_def)
  from ab c d show ?thesis
    unfolding sf by (simp add: pre_def p_def)
qed

theorem sendMessage_stream_witness:
  "trim ''Hi'' \<noteq> [] \<and> \<not> isLoading sample_client
   \<and> currentThreadId sample_client = Some ''t1''
   \<and> ai_id sample_world \<notin> msg_id ` set (messages sample_client)
   \<and> streamChat (json_parse sample_world) (response sample_world) = ([token_hi, done_event], Returned)
   \<and> messages (sendMessage sample_world ''Hi'' None sample_client)
      = [\<lparr>msg_id = ''user-1000'', role = Human, content = ''Hi'', attachments = Some [],
          isStreaming = None\<rparr>,
         \<lparr>msg_id = ''ai-1001'', role = Ai, content = ''Hi'', attachments = None,
          isStreaming = Some False\<rparr>]
   \<and> requests (sendMessage sample_world ''Hi'' None sample_client)
      = [ChatRequest ''Hi'' ''t1'' ''user_demo'' [], FetchThreads ''user_demo'']
   \<and> ai_id rejected_world \<notin> msg_id ` set (messages sample_client)
   \<and> streamChat (json_parse rejected_world) (response rejected_world) = ([], Thrown)
   \<and> messages (sendMessage rejected_world ''Hi'' None sample_client)
      = [\<lparr>msg_id = ''user-1000'', role = Human, content = ''Hi'', attachments = Some [],
          isStreaming = None\<rparr>,
         \<lparr>msg_id = ''ai-1001'', role = Ai, content = ''Failed to get response. Please try again.'',
          attachments = None, isStreaming = Some False\<rparr>]"
proof -
  have h1: "trim ''Hi'' \<noteq> []" by code_simp
  have h2: "\<not> isLoading sample_client" by code_simp
  have h3: "currentThreadId sample_client = Some ''t1''" by code_simp
  have h4: "ai_id sample_world \<notin> msg_id ` set (messages sample_client)" by code_simp
  have h5: "streamChat (json_parse sample_world) (response sample_world)
              = ([token_hi, done_event], Returned)" by code_simp
  have k4: "ai_id rejected_world \<notin> msg_id ` set (messages sample_client)" by code_simp
  have k5: "streamChat (json_parse rejected_world) (response rejected_world) = ([], Thrown)"
    by code_simp
  note T = sendMessage_stream [OF h1 h2 h3 h4, where atts = None]
  note U = sendMessage_stream [OF h1 h2 h3 k4, where atts = None]
  have a: "messages (sendMessage sample_world ''Hi'' None sample_client)
      = [\<lparr>msg_id = ''user-1000'', role = Human, content = ''Hi'', attachments = Some [],
          isStreaming = None\<rparr>,
         \<lparr>msg_id = ''ai-1001'', role = Ai, content = ''Hi'', attachments = None,
          isStreaming = Some False\<rparr>]"
    by (subst T [THEN conjunct1]) code_simp
  have b: "requests (sendMessage sample_world ''Hi'' None sample_client)
      = [ChatRequest ''Hi'' ''t1'' ''user_demo'' [], FetchThreads ''user_demo'']"
    by (subst T [THEN conjunct2, THEN conjunct1]) code_simp
  have c: "messages (sendMessage rejected_world ''Hi'' None sample_client)
      = [\<lparr>msg_id = ''user-1000'', role = Human, content = ''Hi'', attachments = Some [],
          isStreaming = None\<rparr>,
         \<lparr>msg_id = ''ai-1001'', role = Ai, content = ''Failed to get response. Please try again.'',
          attachments = None, isStreaming = Some False\<rparr>]"
    by (subst U [THEN conjunct1]) code_simp
  from h1 h2 h3 h4 h5 k4 k5 a b c show ?thesis by blast
qed

text \<open>
  Claim C4. On the event stream \<^verbatim>\<open>message "Hello"\<close>, \<^verbatim>\<open>done\<close>, which both readers
  yield alike, \<^verbatim>\<open>sendMessage\<close> shows the reply \<^verbatim>\<open>Hello\<close>, while
  \<^verbatim>\<open>forkFromCheckpoint\<close> leaves the placeholder empty: its handler has no branch for
  \<^verbatim>\<open>message\<close> events.
\<close>

theorem fork_ignores_message_event:
  "fst (streamChat (json_parse message_world) (response message_world)) = [message_hello, done_event]
   \<and> fst (streamFork (json_parse message_world) (response message_world)) = [message_hello, done_event]
   \<and> map content (messages (sendMessage message_world ''Hi'' None sample_client)) = [''Hi'', ''Hello'']
   \<and> map content (messages (forkFromCheckpoint message_world ''Hi'' ''cp-0'' None sample_client))
      = [''Hi'', []]"
  by code_simp

text \<open>
  Claim C5, as stated: the preview shows each recorded message with the same role. A
  recorded role is any text; the checkpoint \<open>system_checkpoint\<close> records the role
  \<^verbatim>\<open>system\<close>, which the preview shows as \<^verbatim>\<open>ai\<close>.
\<close>

theorem selectCheckpoint_preview_counterexample:
  "map (role_name \<circ> role) (messages (selectCheckpoint sample_world (Some system_checkpoint) loaded_client))
     \<noteq> map cm_role (cp_messages system_checkpoint)"
  by code_simp

text \<open>
  Claim C5, amended. Selecting a checkpoint \<open>c\<close> replaces the display by one message per
  recorded message of \<open>c\<close>, in order, with the recorded content, and with role human when
  the recorded role is \<^verbatim>\<open>human\<close> and role ai otherwise; \<open>c\<close> is then the selected
  checkpoint and no message can be edited. Selecting null with a thread selected requests
  that thread's messages and, when the request succeeds, replaces the display by the
  messages of the Message table.
\<close>

theorem selectCheckpoint_preview:
  "length (messages (selectCheckpoint w (Some c) st)) = length (cp_messages c)
   \<and> map content (messages (selectCheckpoint w (Some c) st)) = map cm_content (cp_messages c)
   \<and> map role (messages (selectCheckpoint w (Some c) st))
       = map (\<lambda>msg. if cm_role msg = ''human'' then Human else Ai) (cp_messages c)
   \<and> selectedCheckpoint (selectCheckpoint w (Some c) st) = Some c
   \<and> \<not> canEdit (selectCheckpoint w (Some c) st) m
   \<and> (currentThreadId st = Some t \<longrightarrow> messages_reply w = Some table \<longrightarrow>
        messages (selectCheckpoint w None st) = map from_message table
        \<and> requests (selectCheckpoint w None st) = requests st @ [FetchMessages t]
        \<and> selectedCheckpoint (selectCheckpoint w None st) = None)"
proof -
  have c1: "content \<circ> checkpoint_message c = (\<lambda>p. cm_content (snd p))"
    by (auto simp: checkpoint_message_def fun_eq_iff)
  have c2: "role \<circ> checkpoint_message c = (\<lambda>p. (if cm_role (snd p) = ''human'' then Human else Ai))"
    by (auto simp: checkpoint_message_def fun_eq_iff)
  show ?thesis
    by (simp add: selectCheckpoint_def Let_def c1 c2 map_enumerate_snd canEdit_def
        map_enumerate_snd [of "\<lambda>msg. if cm_role msg = ''human'' then Human else Ai"]
        isPreviewingCheckpoint_def loadMessages_def send_request_def)
qed

theorem selectCheckpoint_preview_witness:
  "currentThreadId preview_client = Some ''t1''
   \<and> messages_reply sample_world = Some sample_table
   \<and> map msg_id (messages (selectCheckpoint sample_world None preview_client)) = [''db-1'', ''db-2'']
   \<and> map content (messages preview_client) = [''Hi'', ''Hi'']
   \<and> map role (messages preview_client) = [Human, Ai]
   \<and> \<not> canEdit preview_client (hd (messages preview_client))"
proof -
  have h1: "currentThreadId preview_client = Some ''t1''" by code_simp
  have h2: "messages_reply sample_world = Some sample_table" by code_simp
  note P = selectCheckpoint_preview [where w = sample_world and c = sample_checkpoint
      and st = loaded_client and m = "hd (messages preview_client)", folded preview_client_def]
  note D = selectCheckpoint_preview [where w = sample_world and st = preview_client
      and t = "''t1''" and table = sample_table]
  have a: "messages (selectCheckpoint sample_world None preview_client) = map from_message sample_table"
    using D h1 h2 by blast
  have a': "map msg_id (messages (selectCheckpoint sample_world None preview_client)) = [''db-1'', ''db-2'']"
    by (subst a) code_simp
  have b: "map content (messages preview_client) = [''Hi'', ''Hi'']"
    by (subst P [THEN conjunct2, THEN conjunct1]) code_simp
  have c: "map role (messages preview_client) = [Human, Ai]"
    by (subst P [THEN conjunct2, THEN conjunct2, THEN conjunct1]) code_simp
  have d: "\<not> canEdit preview_client (hd (messages preview_client))"
    using P by blast
  from h1 h2 a' b c d show ?thesis by blast
qed

text \<open>
  Claim C6, as stated: selecting and deselecting a checkpoint restores every live display,
  message ids included. After a send the live display holds the locally made ids
  \<^verbatim>\<open>user-1000\<close> and \<^verbatim>\<open>ai-1001\<close>; the reload gives the same two turns the ids
  \<^verbatim>\<open>db-1\<close> and \<^verbatim>\<open>db-2\<close> of the Message table.
\<close>

theorem select_deselect_counterexample:
  "messages (selectCheckpoint sample_world None
      (selectCheckpoint sample_world (Some sample_checkpoint)
         (sendMessage sample_world ''Hi'' None sample_client)))
   \<noteq> messages (sendMessage sample_world ''Hi'' None sample_client)"
  by code_simp

text \<open>
  Claim C6, amended. When the live display is the one loaded from the Message table, a
  thread is selected, and the table is the same when the messages are requested again,
  selecting any checkpoint and then selecting null gives back exactly that display, and
  no checkpoint is selected.
\<close>

theorem select_deselect_roundtrip:
  assumes "currentThreadId st = Some t" and "messages_reply w = Some table"
    and "messages st = map from_message table"
  shows "messages (selectCheckpoint w None (selectCheckpoint w' (Some c) st)) = messages st
       \<and> selectedCheckpoint (selectCheckpoint w None (selectCheckpoint w' (Some c) st)) = None"
  using assms by (simp add: selectCheckpoint_def Let_def loadMessages_def send_request_def)

theorem select_deselect_roundtrip_witness:
  "currentThreadId loaded_client = Some ''t1''
   \<and> messages_reply sample_world = Some sample_table
   \<and> messages loaded_client = map from_message sample_table
   \<and> messages (selectCheckpoint sample_world None
        (selectCheckpoint sample_world (Some sample_checkpoint) loaded_client))
      = messages loaded_client"
proof -
  have h1: "currentThreadId loaded_client = Some ''t1''" by code_simp
  have h2: "messages_reply sample_world = Some sample_table" by code_simp
  have h3: "messages loaded_client = map from_message sample_table" by code_simp
  from select_deselect_roundtrip [OF h1 h2 h3, of sample_world sample_checkpoint] h1 h2 h3
  show ?thesis by blast
qed

text \<open>
  Claim C10, as stated: \<^verbatim>\<open>deleteThread\<close> removes the thread from the local list for every
  thread id. When the server refuses the delete, the \<^verbatim>\<open>catch\<close> block leaves the local
  state as it was: thread \<^verbatim>\<open>t1\<close> stays in the list and stays current, and the display
  is kept.
\<close>

theorem deleteThread_failure_counterexample:
  "map t_id (threads (deleteThread failed_delete_world ''t1'' loaded_client)) = [''t1'', ''t2'']
   \<and> currentThreadId (deleteThread failed_delete_world ''t1'' loaded_client) = Some ''t1''
   \<and> messages (deleteThread failed_delete_world ''t1'' loaded_client) = messages loaded_client"
  by code_simp

text \<open>
  Claim C10, amended. When the server has deleted thread \<open>t\<close>, \<^verbatim>\<open>deleteThread\<close> removes
  every thread with id \<open>t\<close> from the local list; if \<open>t\<close> is the current thread, the
  current thread id becomes null and the display becomes empty; otherwise both stay as
  they were.
\<close>

theorem deleteThread_frame:
  assumes "delete_ok w"
  shows "threads (deleteThread w t st) = filter (\<lambda>th. t_id th \<noteq> t) (threads st)
       \<and> t \<notin> t_id ` set (threads (deleteThread w t st))
       \<and> currentThreadId (deleteThread w t st)
           = (if currentThreadId st = Some t then None else currentThreadId st)
       \<and> messages (deleteThread w t st)
           = (if currentThreadId st = Some t then [] else messages st)"
  using assms by (auto simp: deleteThread_def send_request_def Let_def)

theorem deleteThread_frame_witness:
  "delete_ok sample_world
   \<and> map t_id (threads (deleteThread sample_world ''t1'' loaded_client)) = [''t2'']
   \<and> currentThreadId (deleteThread sample_world ''t1'' loaded_client) = None
   \<and> messages (deleteThread sample_world ''t1'' loaded_client) = []
   \<and> map t_id (threads (deleteThread sample_world ''t2'' loaded_client)) = [''t1'']
   \<and> currentThreadId (deleteThread sample_world ''t2'' loaded_client) = Some ''t1''
   \<and> messages (deleteThread sample_world ''t2'' loaded_client) = messages loaded_client"
proof -
  have h: "delete_ok sample_world" by code_simp
  note T1 = deleteThread_frame [OF h, of "''t1''" loaded_client]
  note T2 = deleteThread_frame [OF h, of "''t2''" loaded_client]
  have a: "map t_id (threads (deleteThread sample_world ''t1'' loaded_client)) = [''t2'']"
    by (subst T1 [THEN conjunct1]) code_simp
  have b: "currentThreadId (deleteThread sample_world ''t1'' loaded_client) = None"
    by (subst T1 [THEN conjunct2, THEN conjunct2, THEN conjunct1]) code_simp
  have c: "messages (deleteThread sample_world ''t1'' loaded_client) = []"
    by (subst T1 [THEN conjunct2, THEN conjunct2, THEN conjunct2]) code_simp
  have d: "map t_id (threads (deleteThread sample_world ''t2'' loaded_client)) = [''t1'']"
    by (subst T2 [THEN conjunct1]) code_simp
  have e: "currentThreadId (deleteThread sample_world ''t2'' loaded_client) = Some ''t1''"
    by (subst T2 [THEN conjunct2, THEN conjunct2, THEN conjunct1]) code_simp
  have f: "messages (deleteThread sample_world ''t2'' loaded_client) = messages loaded_client"
    by (subst T2 [THEN conjunct2, THEN conjunct2, THEN conjunct2]) code_simp
  from h a b c d e f show ?thesis by blast
qed

end
